theory Spec2Isabelle
  imports Main
begin

section \<open>JavaScript strings\<close>

text \<open>
  A JavaScript string is modelled as a \<^typ>\<open>string\<close>; each \<^typ>\<open>char\<close> stands for one
  UTF-16 code unit below 256. Case mapping and white space follow ECMAScript on that
  range. The three characters whose upper-case form leaves the range or is longer than one
  unit (0xB5, 0xDF, 0xFF) are left unchanged by \<open>toUpperCase\<close>; none of their images occurs
  in a token this program compares against.
\<close>

definition lower_letters :: string where
  "lower_letters = ''abcdefghijklmnopqrstuvwxyz'' @
    [CHR 0xE0, CHR 0xE1, CHR 0xE2, CHR 0xE3, CHR 0xE4, CHR 0xE5, CHR 0xE6, CHR 0xE7,
     CHR 0xE8, CHR 0xE9, CHR 0xEA, CHR 0xEB, CHR 0xEC, CHR 0xED, CHR 0xEE, CHR 0xEF,
     CHR 0xF0, CHR 0xF1, CHR 0xF2, CHR 0xF3, CHR 0xF4, CHR 0xF5, CHR 0xF6,
     CHR 0xF8, CHR 0xF9, CHR 0xFA, CHR 0xFB, CHR 0xFC, CHR 0xFD, CHR 0xFE]"

definition upper_letters :: string where
  "upper_letters = ''ABCDEFGHIJKLMNOPQRSTUVWXYZ'' @
    [CHR 0xC0, CHR 0xC1, CHR 0xC2, CHR 0xC3, CHR 0xC4, CHR 0xC5, CHR 0xC6, CHR 0xC7,
     CHR 0xC8, CHR 0xC9, CHR 0xCA, CHR 0xCB, CHR 0xCC, CHR 0xCD, CHR 0xCE, CHR 0xCF,
     CHR 0xD0, CHR 0xD1, CHR 0xD2, CHR 0xD3, CHR 0xD4, CHR 0xD5, CHR 0xD6,
     CHR 0xD8, CHR 0xD9, CHR 0xDA, CHR 0xDB, CHR 0xDC, CHR 0xDD, CHR 0xDE]"

definition toUpperChar :: "char \<Rightarrow> char" where
  "toUpperChar c = (case map_of (zip lower_letters upper_letters) c of Some u \<Rightarrow> u | None \<Rightarrow> c)"

definition toLowerChar :: "char \<Rightarrow> char" where
  "toLowerChar c = (case map_of (zip upper_letters lower_letters) c of Some l \<Rightarrow> l | None \<Rightarrow> c)"

definition toUpperCase :: "string \<Rightarrow> string" where
  "toUpperCase s = map toUpperChar s"

definition toLowerCase :: "string \<Rightarrow> string" where
  "toLowerCase s = map toLowerChar s"

text \<open>White space and line terminators: what \<open>trim\<close> strips and what \<open>\s\<close> matches.\<close>

definition is_space :: "char \<Rightarrow> bool" where
  "is_space c = (c \<in> set [CHR 0x09, CHR 0x0A, CHR 0x0B, CHR 0x0C, CHR 0x0D, CHR 0x20, CHR 0xA0])"

definition trim :: "string \<Rightarrow> string" where
  "trim s = rev (dropWhile is_space (rev (dropWhile is_space s)))"

fun starts_with :: "string \<Rightarrow> string \<Rightarrow> bool" where
  "starts_with t [] = True"
| "starts_with [] (p # ps) = False"
| "starts_with (c # cs) (p # ps) = (c = p \<and> starts_with cs ps)"

text \<open>\<open>s.includes(sub)\<close>\<close>

fun includes_str :: "string \<Rightarrow> string \<Rightarrow> bool" where
  "includes_str [] sub = (sub = [])"
| "includes_str (c # cs) sub = (starts_with (c # cs) sub \<or> includes_str cs sub)"

text \<open>Truthiness of a value that is a string, \<open>undefined\<close> or \<open>null\<close>.\<close>

fun truthy :: "string option \<Rightarrow> bool" where
  "truthy None = False"
| "truthy (Some s) = (s \<noteq> [])"

section \<open>Observable effects\<close>

datatype event =
    LogSkipping string
  | LogAnalyzing string
  | LogTryingDomain string
  | LogFound string string
  | LogNoMatch
  | LogNoAction string
  | LogError string
  | LogInfo string
  | GroqRequest string
  | TrelloPut string string bool
  | GmailMarkRead string bool
  | NtfyPost string string string string bool
  | Delay nat

text \<open>
  \<open>TrelloPut card list ok\<close> is the request \<open>PUT /1/cards/card {idList: list}\<close> and whether it
  succeeded; \<open>GmailMarkRead message ok\<close> the request removing the label UNREAD;
  \<open>GroqRequest prompt\<close> one chat completion call; \<open>NtfyPost topic title body tags ok\<close> one
  POST to the notification endpoint. The \<open>Log\<close> events are the console lines that mark a
  decision of the run.
\<close>

section \<open>The AI collaborator\<close>

text \<open>
  What one chat completion call does: it throws, or it returns a response whose
  \<open>choices[0].message.content\<close> is a string (\<open>Some\<close>) or is missing (\<open>None\<close>), in which
  case reading it throws inside the \<open>try\<close> block.
\<close>

datatype ai_reply = ApiError string | Completion "string option"

definition categories :: "string list" where
  "categories = [''INITIAL_INTERVIEW'', ''CODING_CHALLENGE'', ''TECHNICAL_INTERVIEW'',
     ''HR_INTERVIEW'', ''REJECTION'', ''OFFER'', ''OTHER_REPLY'']"

definition classify_prompt :: "string \<Rightarrow> string \<Rightarrow> string" where
  "classify_prompt subject snippet =
     ''Classify this email:'' @ [CHR 0x0A] @ ''---'' @ [CHR 0x0A] @
     ''Subject: '' @ subject @ [CHR 0x0A] @ ''Snippet: '' @ snippet @ [CHR 0x0A] @ ''---''"

text \<open>
  \<open>classifyEmailWithAI\<close>: the first argument says whether the module-level client \<open>groq\<close>
  was initialised; the last is the service's behaviour on the one call made.
\<close>

definition classifyEmailWithAI :: "bool \<Rightarrow> string \<Rightarrow> string \<Rightarrow> ai_reply \<Rightarrow> string \<times> event list" where
  "classifyEmailWithAI groq subject snippet reply =
     (if \<not> groq then (''OTHER_REPLY'', [LogInfo ''AI classification skipped (client not initialized).''])
      else
        (case reply of
           ApiError msg \<Rightarrow>
             (''OTHER_REPLY'', [GroqRequest (classify_prompt subject snippet), LogError ''Error calling Groq API''])
         | Completion None \<Rightarrow>
             (''OTHER_REPLY'', [GroqRequest (classify_prompt subject snippet), LogError ''Error calling Groq API''])
         | Completion (Some content) \<Rightarrow>
             (let classification = toUpperCase (trim content) in
              if classification \<in> set categories
              then (classification, [GroqRequest (classify_prompt subject snippet)])
              else (''OTHER_REPLY'',
                    [GroqRequest (classify_prompt subject snippet),
                     LogError ''AI returned an unexpected classification'']))))"

definition status_prompt :: "string \<Rightarrow> string" where
  "status_prompt url = ''Please check this URL and report its status: '' @ url"

text \<open>\<open>checkJobStatusWithAI\<close> of the Job Status Checker; \<open>True\<close> is ACTIVE.\<close>

definition checkJobStatusWithAI :: "bool \<Rightarrow> string \<Rightarrow> ai_reply \<Rightarrow> bool \<times> event list" where
  "checkJobStatusWithAI groq url reply =
     (if \<not> groq then (True, [LogInfo ''AI client not initialized. Skipping check.''])
      else
        (case reply of
           ApiError msg \<Rightarrow>
             (True, [GroqRequest (status_prompt url), LogError ''Error checking job status with AI''])
         | Completion None \<Rightarrow>
             (True, [GroqRequest (status_prompt url), LogError ''Error checking job status with AI''])
         | Completion (Some content) \<Rightarrow>
             (let classification = toUpperCase (trim content) in
              if classification = ''ACTIVE'' then (True, [GroqRequest (status_prompt url)])
              else if classification = ''DELETED'' then (False, [GroqRequest (status_prompt url)])
              else (True, [GroqRequest (status_prompt url),
                           LogError ''AI returned unexpected status'']))))"

section \<open>Configuration and notification\<close>

text \<open>The values read from \<open>process.env\<close>; \<open>None\<close> is an absent variable.\<close>

record env =
  TRELLO_API_KEY :: "string option"
  TRELLO_TOKEN :: "string option"
  TRELLO_SENT_CV_LIST_ID :: "string option"
  TRELLO_ESTABLISHED_CONTACT_LIST_ID :: "string option"
  TRELLO_INITIAL_INTERVIEW_LIST_ID :: "string option"
  TRELLO_CODING_INTERVIEW_LIST_ID :: "string option"
  TRELLO_ARCHITECTURE_INTERVIEW_LIST_ID :: "string option"
  TRELLO_MANAGEMENT_AND_HR_LIST_ID :: "string option"
  TRELLO_DROPPED_INITIAL_LIST_ID :: "string option"
  TRELLO_JOB_DELETED_FROM_WEBSITE_LIST_ID :: "string option"
  GROQ_API_KEY :: "string option"
  NTFY_TOPIC :: "string option"
  MY_EMAIL :: "string option"

text \<open>
  \<open>sendNotification\<close>; the two scripts differ in the tags only. The third argument says
  whether the POST succeeded (a failure is caught and logged).
\<close>

definition sendNotification :: "env \<Rightarrow> string \<Rightarrow> bool \<Rightarrow> string \<Rightarrow> string \<Rightarrow> event list" where
  "sendNotification e tags ok title message =
     (case NTFY_TOPIC e of
        None \<Rightarrow> [LogInfo ''Notification skipped (NTFY_TOPIC not set in .env).'']
      | Some topic \<Rightarrow>
          if topic = [] then [LogInfo ''Notification skipped (NTFY_TOPIC not set in .env).'']
          else if ok then [NtfyPost topic title message tags True]
          else [NtfyPost topic title message tags False, LogError ''Error sending notification''])"

definition digit_char :: "nat \<Rightarrow> char" where
  "digit_char n = ''0123456789'' ! n"

fun show_nat :: "nat \<Rightarrow> string" where
  "show_nat n = (if n < 10 then [digit_char n] else show_nat (n div 10) @ [digit_char (n mod 10)])"

declare show_nat.simps [simp del]

fun join_str :: "string \<Rightarrow> string list \<Rightarrow> string" where
  "join_str sep [] = []"
| "join_str sep [x] = x"
| "join_str sep (x # y # ys) = x @ sep @ join_str sep (y # ys)"

section \<open>Reply Classifier: data\<close>

record card =
  card_id :: string
  card_name :: string
  desc :: "string option"

text \<open>The metadata \<open>gmail.users.messages.get\<close> returns for one message.\<close>

record msg_data =
  threadId :: "string option"
  headers :: "(string \<times> string) list"
  snippet :: "string option"

text \<open>
  One entry of the unread list, with what the collaborators answer while it is processed:
  the metadata fetch (\<open>Inl\<close> when it throws), the AI call, the card update and the
  request that marks the message read.
\<close>

record incoming =
  message_id :: string
  get_result :: "string + msg_data"
  ai :: ai_reply
  put_ok :: bool
  mark_ok :: bool

record state =
  trelloCards :: "card list"
  movedCardsLog :: "(string \<times> string \<times> string) list"
  cardsFailed :: nat
  trace :: "event list"

datatype 'a outcome = Returned 'a | Threw string

section \<open>Reply Classifier: card matching\<close>

definition or_else :: "string option \<Rightarrow> string \<Rightarrow> string" where
  "or_else v d = (case v of None \<Rightarrow> d | Some s \<Rightarrow> if s = [] then d else s)"

text \<open>\<open>headers.find(h => h.name.toLowerCase() === n)?.value\<close>\<close>

definition header_value :: "(string \<times> string) list \<Rightarrow> string \<Rightarrow> string option" where
  "header_value hs n = map_option snd (find (\<lambda>h. toLowerCase (fst h) = n) hs)"

text \<open>
  Group 1 of the leftmost match of \<open>/<([^>]+)>/\<close>: at a \<open><\<close>, the longest run of characters
  other than \<open>>\<close> must be non-empty and be followed by a \<open>>\<close>.
\<close>

fun angle_addr :: "string \<Rightarrow> string option" where
  "angle_addr [] = None"
| "angle_addr (c # cs) =
     (if c = CHR ''<'' \<and> takeWhile (\<lambda>x. x \<noteq> CHR ''>'') cs \<noteq> [] \<and>
         dropWhile (\<lambda>x. x \<noteq> CHR ''>'') cs \<noteq> []
      then Some (takeWhile (\<lambda>x. x \<noteq> CHR ''>'') cs)
      else angle_addr cs)"

definition fromEmail_of :: "string \<Rightarrow> string" where
  "fromEmail_of fromHeader =
     (case angle_addr fromHeader of Some a \<Rightarrow> a | None \<Rightarrow> trim fromHeader)"

text \<open>\<open>fromEmail.includes('@') ? fromEmail.split('@')[1].toLowerCase() : null\<close>\<close>

definition domain_of :: "string \<Rightarrow> string option" where
  "domain_of fromEmail =
     (if includes_str fromEmail ''@''
      then Some (toLowerCase (takeWhile (\<lambda>x. x \<noteq> CHR ''@'')
                   (tl (dropWhile (\<lambda>x. x \<noteq> CHR ''@'') fromEmail))))
      else None)"

definition has_thread_tag :: "string \<Rightarrow> card \<Rightarrow> bool" where
  "has_thread_tag tid c =
     (case desc c of None \<Rightarrow> False | Some d \<Rightarrow> d \<noteq> [] \<and> includes_str d (''threadId: '' @ tid))"

subsection \<open>The domain pattern\<close>

text \<open>\<open>domain.replace(/\./g, '\\.')\<close> and the source text handed to \<open>new RegExp\<close>.\<close>

definition escapedDomain :: "string \<Rightarrow> string" where
  "escapedDomain d = concat (map (\<lambda>c. if c = CHR ''.'' then [CHR 0x5C, CHR ''.''] else [c]) d)"

definition domain_pattern :: "string \<Rightarrow> string" where
  "domain_pattern d =
     ''domain:'' @ [CHR 0x5C] @ ''s*('' @ escapedDomain d @ ''|'' @ [CHR 0x5C] @ ''['' @
     escapedDomain d @ [CHR 0x5C] @ '']'' @ '')''"

text \<open>
  The syntax characters of a regular expression other than the dot, which is escaped. A
  domain free of them enters the pattern as literal text; then the pattern is
  \<open>domain:\<close>, any run of white space, and the domain, bare or in square brackets, compared
  under the flag \<open>i\<close>. That fragment is given its meaning here.
\<close>

definition regex_literal :: "string \<Rightarrow> bool" where
  "regex_literal d = (\<forall>c \<in> set d. c \<notin> set (''^$*+?()[]{}|'' @ [CHR 0x5C]))"

text \<open>Two characters are equal under the flag \<open>i\<close> when their canonical forms agree.\<close>

fun ci_starts_with :: "string \<Rightarrow> string \<Rightarrow> bool" where
  "ci_starts_with t [] = True"
| "ci_starts_with [] (p # ps) = False"
| "ci_starts_with (c # cs) (p # ps) = (toUpperChar c = toUpperChar p \<and> ci_starts_with cs ps)"

definition domain_match_at :: "string \<Rightarrow> string \<Rightarrow> bool" where
  "domain_match_at d t =
     (ci_starts_with t ''domain:'' \<and>
      list_ex (\<lambda>k. ci_starts_with (drop (7 + k) t) d \<or>
                   ci_starts_with (drop (7 + k) t) (''['' @ d @ '']''))
              [0 ..< Suc (length (takeWhile is_space (drop 7 t)))])"

definition domain_test :: "string \<Rightarrow> string \<Rightarrow> bool" where
  "domain_test d text = list_ex (\<lambda>i. domain_match_at d (drop i text)) [0 ..< Suc (length text)]"

text \<open>
  A pattern outside that fragment is left to the engine, a parameter of the model:
  \<open>None\<close> when \<open>new RegExp\<close> throws a SyntaxError, else the predicate \<open>test\<close> computes.
\<close>

type_synonym regexp_engine = "string \<Rightarrow> (string \<Rightarrow> bool) option"

definition domainRegex :: "regexp_engine \<Rightarrow> string \<Rightarrow> (string \<Rightarrow> bool) option" where
  "domainRegex rx d = (if regex_literal d then Some (domain_test d) else rx (domain_pattern d))"

definition has_domain_tag :: "(string \<Rightarrow> bool) \<Rightarrow> card \<Rightarrow> bool" where
  "has_domain_tag test c = (case desc c of None \<Rightarrow> False | Some d \<Rightarrow> d \<noteq> [] \<and> test d)"

text \<open>
  The matching block of \<open>main\<close>: the card found (if any), \<open>matchMethod\<close>, and the lines
  logged on the way.
\<close>

definition match_card ::
  "regexp_engine \<Rightarrow> card list \<Rightarrow> string option \<Rightarrow> string option
     \<Rightarrow> (card option \<times> string) outcome \<times> event list" where
  "match_card rx cards emailThreadId domain =
     (case (case emailThreadId of
              None \<Rightarrow> None
            | Some tid \<Rightarrow> if tid = [] then None else find (has_thread_tag tid) cards) of
        Some c \<Rightarrow> (Returned (Some c, ''Thread ID''), [])
      | None \<Rightarrow>
          (case domain of
             None \<Rightarrow> (Returned (None, []), [])
           | Some d \<Rightarrow>
               if d = [] then (Returned (None, []), [])
               else
                 (case domainRegex rx d of
                    None \<Rightarrow> (Threw ''SyntaxError: Invalid regular expression'', [LogTryingDomain d])
                  | Some test \<Rightarrow>
                      (case find (has_domain_tag test) cards of
                         Some c \<Rightarrow> (Returned (Some c, ''Domain''), [LogTryingDomain d])
                       | None \<Rightarrow> (Returned (None, []), [LogTryingDomain d])))))"

section \<open>Reply Classifier: routing and moving\<close>

text \<open>The \<open>switch\<close> on the label: \<open>targetListId\<close> and \<open>targetListName\<close>.\<close>

definition targetList :: "env \<Rightarrow> string \<Rightarrow> string option \<times> string" where
  "targetList e label =
     (if label = ''INITIAL_INTERVIEW'' then (TRELLO_INITIAL_INTERVIEW_LIST_ID e, ''Initial Interview'')
      else if label = ''CODING_CHALLENGE'' then (TRELLO_CODING_INTERVIEW_LIST_ID e, ''Coding Interview'')
      else if label = ''TECHNICAL_INTERVIEW''
        then (TRELLO_ARCHITECTURE_INTERVIEW_LIST_ID e, ''Architecture Interview'')
      else if label = ''HR_INTERVIEW'' then (TRELLO_MANAGEMENT_AND_HR_LIST_ID e, ''Management and HR'')
      else if label = ''REJECTION'' then (TRELLO_DROPPED_INITIAL_LIST_ID e, ''Dropped Initial'')
      else if label = ''OTHER_REPLY'' then (TRELLO_ESTABLISHED_CONTACT_LIST_ID e, ''Established Contact'')
      else (None, ''Unknown List''))"

text \<open>The \<open>if (targetListId)\<close> statement, for the matched card and its label.\<close>

definition move_card :: "env \<Rightarrow> incoming \<Rightarrow> string \<Rightarrow> card \<Rightarrow> string \<Rightarrow> state \<Rightarrow> state" where
  "move_card e m subject c label st =
     (case targetList e label of
        (targetListId, targetListName) \<Rightarrow>
          if truthy targetListId then
            (if put_ok m then
               st\<lparr>trace := trace st @ [TrelloPut (card_id c) (or_else targetListId []) True,
                                       GmailMarkRead (message_id m) (mark_ok m)],
                  movedCardsLog := movedCardsLog st @ [(card_name c, targetListName, subject)],
                  trelloCards := filter (\<lambda>x. card_id x \<noteq> card_id c) (trelloCards st)\<rparr>
             else
               st\<lparr>trace := trace st @ [TrelloPut (card_id c) (or_else targetListId []) False,
                                       LogError ''Error moving card''],
                  cardsFailed := Suc (cardsFailed st)\<rparr>)
          else st\<lparr>trace := trace st @ [LogNoAction label]\<rparr>)"

text \<open>
  One iteration of the loop over the unread messages. The second component is the error
  thrown out of the iteration, if any: \<open>MY_EMAIL\<close> undefined at \<open>toLowerCase\<close>, or an
  invalid domain pattern.
\<close>

definition process_message :: "env \<Rightarrow> regexp_engine \<Rightarrow> state \<Rightarrow> incoming \<Rightarrow> state \<times> string option" where
  "process_message e rx st m =
     (case get_result m of
        Inl err \<Rightarrow> (st\<lparr>trace := trace st @ [LogError (''Error fetching details for email: '' @ err)]\<rparr>, None)
      | Inr d \<Rightarrow>
          (let subject = or_else (header_value (headers d) ''subject'') ''No Subject'';
               fromHeader = or_else (header_value (headers d) ''from'') [];
               toHeader = or_else (header_value (headers d) ''to'') []
           in case MY_EMAIL e of
                None \<Rightarrow> (st, Some ''TypeError: Cannot read properties of undefined'')
              | Some yourEmailAddress \<Rightarrow>
                  if \<not> includes_str (toLowerCase toHeader) (toLowerCase yourEmailAddress)
                  then (st\<lparr>trace := trace st @ [LogSkipping subject]\<rparr>, None)
                  else
                    (case match_card rx (trelloCards st) (threadId d)
                            (domain_of (fromEmail_of fromHeader)) of
                       (Threw err, evs) \<Rightarrow>
                         (st\<lparr>trace := trace st @ LogAnalyzing subject # evs\<rparr>, Some err)
                     | (Returned (None, matchMethod), evs) \<Rightarrow>
                         (st\<lparr>trace := trace st @ LogAnalyzing subject # evs @ [LogNoMatch]\<rparr>, None)
                     | (Returned (Some c, matchMethod), evs) \<Rightarrow>
                         (case classifyEmailWithAI (truthy (GROQ_API_KEY e)) subject
                                 (or_else (snippet d) []) (ai m) of
                            (classificationLabel, ai_evs) \<Rightarrow>
                              (move_card e m subject c classificationLabel
                                 (st\<lparr>trace := trace st @ LogAnalyzing subject # evs @
                                             [LogFound matchMethod (card_id c)] @ ai_evs\<rparr>),
                               None)))))"

fun process_messages :: "env \<Rightarrow> regexp_engine \<Rightarrow> state \<Rightarrow> incoming list \<Rightarrow> state \<times> string option" where
  "process_messages e rx st [] = (st, None)"
| "process_messages e rx st (m # ms) =
     (case process_message e rx st m of
        (st', Some err) \<Rightarrow> (st', Some err)
      | (st', None) \<Rightarrow> process_messages e rx st' ms)"

section \<open>Reply Classifier: the run\<close>

text \<open>
  What the collaborators answer outside the loop: \<open>authorize\<close> (\<open>Some\<close> the message of
  the error it throws), the card fetch, the unread listing, and the notification POST.
\<close>

record world =
  gmail_auth :: "string option"
  fetch_cards :: "string + card list"
  list_messages :: "string + incoming list"
  ntfy_ok :: bool

definition shortSubject :: "string \<Rightarrow> string" where
  "shortSubject s = (if length s > 30 then take 27 s @ ''...'' else s)"

definition logEntry :: "string \<times> string \<times> string \<Rightarrow> string" where
  "logEntry l =
     (case l of (nm, lst, subject) \<Rightarrow>
        ''- '' @ nm @ '' -> '' @ lst @ '' (from: '' @ [CHR 0x22] @ shortSubject subject @ [CHR 0x22] @ '')'')"

definition summary_notification :: "state \<Rightarrow> nat \<Rightarrow> string \<times> string" where
  "summary_notification st n =
     (if movedCardsLog st \<noteq> [] then
        (''Trello Bot: '' @ show_nat (length (movedCardsLog st)) @ '' Card(s) Moved'',
         ''Moved '' @ show_nat (length (movedCardsLog st)) @ '' card(s):'' @ [CHR 0x0A] @
           join_str [CHR 0x0A] (map logEntry (movedCardsLog st)))
      else
        (''Trello Bot: All Clear'',
         ''Processed '' @ show_nat n @ '' unread emails. No new actions taken.''))"

text \<open>
  \<open>main\<close> with its top-level \<open>catch\<close>: the effects of the run and the exit status of the
  process.
\<close>

definition main :: "env \<Rightarrow> regexp_engine \<Rightarrow> world \<Rightarrow> event list \<times> nat" where
  "main e rx w =
     (case gmail_auth w of
        Some err \<Rightarrow>
          (LogError (''Failed to connect to Gmail: '' @ err) #
             sendNotification e ''robot'' (ntfy_ok w) ''Trello Bot Error''
               (''Failed to connect to Gmail: '' @ err), 0)
      | None \<Rightarrow>
          if \<not> truthy (TRELLO_API_KEY e) \<or> \<not> truthy (TRELLO_TOKEN e) \<or>
             \<not> truthy (TRELLO_SENT_CV_LIST_ID e)
          then
            (LogError ''Error: Ensure TRELLO_API_KEY, TRELLO_TOKEN, and TRELLO_SENT_CV_LIST_ID are set in .env'' #
               sendNotification e ''robot'' (ntfy_ok w) ''Trello Bot Error''
                 ''Trello environment variables are missing.'', 0)
          else
            (case fetch_cards w of
               Inl err \<Rightarrow>
                 (LogError (''Error getting Trello cards: '' @ err) #
                    sendNotification e ''robot'' (ntfy_ok w) ''Trello Bot Error''
                      (''Failed to fetch Trello cards: '' @ err), 0)
             | Inr cards \<Rightarrow>
                 (case list_messages w of
                    Inl err \<Rightarrow>
                      (LogError (''Error fetching email list from Gmail: '' @ err) #
                         sendNotification e ''robot'' (ntfy_ok w) ''Trello Bot Error''
                           (''Failed to fetch Gmail list: '' @ err), 0)
                  | Inr messages \<Rightarrow>
                      if messages = [] then ([LogInfo ''No unread emails found in inbox.''], 0)
                      else
                        (case process_messages e rx
                                \<lparr>trelloCards = cards, movedCardsLog = [], cardsFailed = 0, trace = []\<rparr>
                                messages of
                           (st, Some err) \<Rightarrow>
                             (trace st @ LogError (''An unhandled error occurred: '' @ err) #
                                sendNotification e ''robot'' (ntfy_ok w) ''Trello Bot: CRITICAL ERROR''
                                  (''Script crashed: '' @ err), 1)
                         | (st, None) \<Rightarrow>
                             (trace st @
                                sendNotification e ''robot'' (ntfy_ok w)
                                  (fst (summary_notification st (length messages)))
                                  (snd (summary_notification st (length messages))), 0)))))"

section \<open>Job Status Checker\<close>

record attachment =
  isUpload :: bool
  url :: "string option"

text \<open>
  One card of the scanned list, with what the collaborators answer while it is checked:
  the attachment listing (\<open>Inl\<close> when it throws), the AI call and the card update.
\<close>

record card_check =
  checked_card :: card
  attachments :: "string + attachment list"
  status_reply :: ai_reply
  move_ok :: bool

record checker_state =
  cardsMoved :: nat
  deletedJobNames :: "string list"
  checker_trace :: "event list"

text \<open>
  One iteration of the loop over \<open>allActiveCards\<close>. The first argument is whether the
  module-level client \<open>groq\<close> is initialised when the iteration runs.
\<close>

definition check_card :: "bool \<Rightarrow> env \<Rightarrow> checker_state \<Rightarrow> card_check \<Rightarrow> checker_state" where
  "check_card groq e st cc =
     (case attachments cc of
        Inl err \<Rightarrow>
          st\<lparr>checker_trace := checker_trace st @ [LogError (''Error fetching attachments: '' @ err)]\<rparr>
      | Inr atts \<Rightarrow>
          (case find (\<lambda>att. isUpload att = False \<and> truthy (url att)) atts of
             None \<Rightarrow>
               st\<lparr>checker_trace := checker_trace st @ [LogInfo ''No link attachment found. Skipping.'']\<rparr>
           | Some linkAttachment \<Rightarrow>
               (case checkJobStatusWithAI groq (or_else (url linkAttachment) []) (status_reply cc) of
                  (isJobActive, ai_evs) \<Rightarrow>
                    if \<not> isJobActive then
                      (if move_ok cc then
                         st\<lparr>checker_trace := checker_trace st @ ai_evs @
                               [TrelloPut (card_id (checked_card cc))
                                  (or_else (TRELLO_JOB_DELETED_FROM_WEBSITE_LIST_ID e) []) True,
                                Delay 5000],
                            cardsMoved := Suc (cardsMoved st),
                            deletedJobNames := deletedJobNames st @ [card_name (checked_card cc)]\<rparr>
                       else
                         st\<lparr>checker_trace := checker_trace st @ ai_evs @
                               [TrelloPut (card_id (checked_card cc))
                                  (or_else (TRELLO_JOB_DELETED_FROM_WEBSITE_LIST_ID e) []) False,
                                LogError ''Error moving card'', Delay 5000]\<rparr>)
                    else
                      st\<lparr>checker_trace := checker_trace st @ ai_evs @
                            [LogInfo ''Job is still ACTIVE. Leaving card in place.'', Delay 5000]\<rparr>)))"

record checker_world =
  fetch_all_cards :: "string + card_check list"
  checker_ntfy_ok :: bool

definition checker_notification :: "checker_state \<Rightarrow> nat \<Rightarrow> string \<times> string" where
  "checker_notification st n =
     (if cardsMoved st > 0 then
        (''Trello Job Checker: '' @ show_nat (cardsMoved st) @ '' Job(s) Deleted'',
         ''Checked '' @ show_nat n @ '' cards and moved '' @ show_nat (cardsMoved st) @
           '' deleted job(s):'' @ [CHR 0x0A] @ ''- '' @
           join_str ([CHR 0x0A] @ ''- '') (deletedJobNames st))
      else
        (''Trello Job Checker'',
         ''Checked '' @ show_nat n @ '' cards. All jobs are still active.''))"

text \<open>\<open>main\<close> of the Job Status Checker.\<close>

definition main_checker :: "env \<Rightarrow> checker_world \<Rightarrow> event list \<times> nat" where
  "main_checker e w =
     (if \<not> truthy (TRELLO_API_KEY e) \<or> \<not> truthy (TRELLO_TOKEN e) \<or> \<not> truthy (GROQ_API_KEY e) \<or>
         \<not> truthy (TRELLO_JOB_DELETED_FROM_WEBSITE_LIST_ID e) \<or> \<not> truthy (TRELLO_SENT_CV_LIST_ID e)
      then
        (LogError ''Error: One or more required environment variables are missing.'' #
           sendNotification e ''broom,robot'' (checker_ntfy_ok w) ''Job Checker Error''
             ''Required .env variables are missing.'', 0)
      else
        (case fetch_all_cards w of
           Inl err \<Rightarrow>
             (LogError (''Error fetching Trello cards: '' @ err) #
                sendNotification e ''broom,robot'' (checker_ntfy_ok w) ''Job Checker Error''
                  (''Failed to fetch Trello cards: '' @ err), 0)
         | Inr allActiveCards \<Rightarrow>
             if allActiveCards = [] then ([LogInfo ''No cards to check. Exiting.''], 0)
             else
               (let st = foldl (check_card True e)
                           \<lparr>cardsMoved = 0, deletedJobNames = [], checker_trace = []\<rparr> allActiveCards
                in (checker_trace st @
                      sendNotification e ''broom,robot'' (checker_ntfy_ok w)
                        (fst (checker_notification st (length allActiveCards)))
                        (snd (checker_notification st (length allActiveCards))), 0))))"

section \<open>What the domain pattern accepts\<close>

text \<open>
  The meaning of the domain pattern in words, to compare \<open>domain_test\<close> with: somewhere in the
  text stands \<open>domain:\<close>, then any run of white space (possibly empty), then the domain,
  bare or in square brackets, all compared under the flag \<open>i\<close>.
\<close>

definition ci_equal :: "string \<Rightarrow> string \<Rightarrow> bool" where
  "ci_equal u p = (map toUpperChar u = map toUpperChar p)"

definition matches_domain_tag :: "string \<Rightarrow> string \<Rightarrow> bool" where
  "matches_domain_tag d text =
     (\<exists>a u ws v b. text = a @ u @ ws @ v @ b \<and> ci_equal u ''domain:'' \<and>
        list_all is_space ws \<and> (ci_equal v d \<or> ci_equal v (''['' @ d @ '']'')))"

section \<open>Properties of a trace\<close>

text \<open>
  An event mentions a card when it reports the card as found or asks Trello to update it; it
  moves the card when the update succeeded. A trace is settled when no event mentions a card
  after an event that moved it.
\<close>

fun mentions :: "string \<Rightarrow> event \<Rightarrow> bool" where
  "mentions cid (LogFound m c) = (c = cid)"
| "mentions cid (TrelloPut c l ok) = (c = cid)"
| "mentions cid ev = False"

fun moved :: "string \<Rightarrow> event \<Rightarrow> bool" where
  "moved cid (TrelloPut c l ok) = (c = cid \<and> ok)"
| "moved cid ev = False"

fun settled :: "event list \<Rightarrow> bool" where
  "settled [] = True"
| "settled (ev # evs) = ((\<forall>cid. moved cid ev \<longrightarrow> list_all (\<lambda>x. \<not> mentions cid x) evs) \<and> settled evs)"

text \<open>
  What one stretch of the loop does to the state: the trace grows, the candidate cards
  shrink, only candidate cards are mentioned, the new events are settled, and a card moved
  by them is no longer a candidate.
\<close>

definition step_ok :: "state \<Rightarrow> state \<Rightarrow> bool" where
  "step_ok st st' \<longleftrightarrow>
     (\<exists>new. trace st' = trace st @ new
       \<and> set (trelloCards st') \<subseteq> set (trelloCards st)
       \<and> (\<forall>ev \<in> set new. \<forall>cid. mentions cid ev \<longrightarrow> cid \<in> card_id ` set (trelloCards st))
       \<and> settled new
       \<and> (\<forall>ev \<in> set new. \<forall>cid. moved cid ev \<longrightarrow> cid \<notin> card_id ` set (trelloCards st')))"

text \<open>The events that are card update requests, whatever their outcome.\<close>

definition is_put :: "event \<Rightarrow> bool" where
  "is_put ev = (case ev of TrelloPut c l ok \<Rightarrow> True | _ \<Rightarrow> False)"

section \<open>Example inputs\<close>

text \<open>
  An engine that rejects every pattern handed to it; the examples below use domains that
  enter the pattern as literal text, for which the engine is not consulted.
\<close>

definition no_regexp :: regexp_engine where
  "no_regexp pattern = None"

definition card_plain :: card where
  "card_plain = \<lparr>card_id = ''c0'', card_name = ''Initech'', desc = Some ''Applied via site''\<rparr>"

definition card_thread :: card where
  "card_thread = \<lparr>card_id = ''c1'', card_name = ''Globex'', desc = Some ''threadId: T42''\<rparr>"

definition card_both :: card where
  "card_both = \<lparr>card_id = ''c2'', card_name = ''Acme'', desc = Some ''threadId: T42 domain: acme.com''\<rparr>"

definition card_bracket :: card where
  "card_bracket = \<lparr>card_id = ''c3'', card_name = ''Acme 2'', desc = Some ''Domain:  [Acme.com]''\<rparr>"

definition card_nospace :: card where
  "card_nospace = \<lparr>card_id = ''c4'', card_name = ''Acme 3'', desc = Some ''domain:acme.com''\<rparr>"

definition card_domain :: card where
  "card_domain = \<lparr>card_id = ''c5'', card_name = ''Acme 4'', desc = Some ''domain: acme.com''\<rparr>"

definition ex_env :: env where
  "ex_env = \<lparr>TRELLO_API_KEY = Some ''key'', TRELLO_TOKEN = Some ''token'',
     TRELLO_SENT_CV_LIST_ID = Some ''L_SENT'',
     TRELLO_ESTABLISHED_CONTACT_LIST_ID = Some ''L_EST'',
     TRELLO_INITIAL_INTERVIEW_LIST_ID = Some ''L_INIT'',
     TRELLO_CODING_INTERVIEW_LIST_ID = None,
     TRELLO_ARCHITECTURE_INTERVIEW_LIST_ID = Some [],
     TRELLO_MANAGEMENT_AND_HR_LIST_ID = Some ''L_HR'',
     TRELLO_DROPPED_INITIAL_LIST_ID = Some ''L_DROPPED'',
     TRELLO_JOB_DELETED_FROM_WEBSITE_LIST_ID = Some ''L_DELETED'',
     GROQ_API_KEY = Some ''gsk'', NTFY_TOPIC = Some ''jobs'', MY_EMAIL = Some ''me@x.com''\<rparr>"

definition ex_data :: msg_data where
  "ex_data = \<lparr>threadId = Some ''T1'',
     headers = [(''To'', ''Me@X.com''), (''From'', ''HR <hr@acme.com>''), (''Subject'', ''Your application'')],
     snippet = Some ''Thank you for applying''\<rparr>"

definition msg_rejection :: incoming where
  "msg_rejection = \<lparr>message_id = ''m1'', get_result = Inr ex_data,
     ai = Completion (Some ''rejection''), put_ok = True, mark_ok = True\<rparr>"

definition msg_again :: incoming where
  "msg_again = \<lparr>message_id = ''m2'', get_result = Inr ex_data,
     ai = Completion (Some ''HR_INTERVIEW''), put_ok = True, mark_ok = True\<rparr>"

definition msg_put_fails :: incoming where
  "msg_put_fails = \<lparr>message_id = ''m3'', get_result = Inr ex_data,
     ai = ApiError ''503'', put_ok = False, mark_ok = True\<rparr>"

definition msg_put_fails_again :: incoming where
  "msg_put_fails_again = \<lparr>message_id = ''m4'', get_result = Inr ex_data,
     ai = ApiError ''503'', put_ok = False, mark_ok = True\<rparr>"

definition msg_elsewhere :: incoming where
  "msg_elsewhere = \<lparr>message_id = ''m5'',
     get_result = Inr \<lparr>threadId = Some ''T42'',
       headers = [(''To'', ''team@x.com''), (''From'', ''HR <hr@acme.com>''), (''Subject'', ''Newsletter'')],
       snippet = None\<rparr>,
     ai = Completion (Some ''OFFER''), put_ok = True, mark_ok = True\<rparr>"

definition ex_world :: "card list \<Rightarrow> incoming list \<Rightarrow> world" where
  "ex_world cards messages =
     \<lparr>gmail_auth = None, fetch_cards = Inr cards, list_messages = Inr messages, ntfy_ok = True\<rparr>"

definition ex_check :: card_check where
  "ex_check = \<lparr>checked_card = card_plain,
      attachments = Inr [\<lparr>isUpload = True, url = Some ''https://files/cv.pdf''\<rparr>,
                         \<lparr>isUpload = False, url = Some ''https://initech.example/jobs/7''\<rparr>],
      status_reply = Completion (Some ''The page says: position filled''), move_ok = True\<rparr>"

definition ex_checker_state :: checker_state where
  "ex_checker_state = \<lparr>cardsMoved = 0, deletedJobNames = [], checker_trace = []\<rparr>"

section \<open>Strings and lists\<close>

lemma starts_with_iff: "starts_with t p \<longleftrightarrow> (\<exists>r. t = p @ r)"
  by (induction t p rule: starts_with.induct) auto

lemma includes_str_iff: "includes_str s sub \<longleftrightarrow> (\<exists>a b. s = a @ sub @ b)"
proof (induction s)
  case Nil
  then show ?case by auto
next
  case (Cons c cs)
  have "(\<exists>a b. c # cs = a @ sub @ b) \<longleftrightarrow> (\<exists>b. c # cs = sub @ b) \<or> (\<exists>a b. cs = a @ sub @ b)"
  proof
    assume "\<exists>a b. c # cs = a @ sub @ b"
    then obtain a b where ab: "c # cs = a @ sub @ b" by blast
    show "(\<exists>b. c # cs = sub @ b) \<or> (\<exists>a b. cs = a @ sub @ b)"
    proof (cases a)
      case Nil
      with ab show ?thesis by auto
    next
      case (Cons x a')
      with ab have "cs = a' @ sub @ b" by simp
      then show ?thesis by blast
    qed
  next
    assume "(\<exists>b. c # cs = sub @ b) \<or> (\<exists>a b. cs = a @ sub @ b)"
    then show "\<exists>a b. c # cs = a @ sub @ b"
    proof
      assume "\<exists>b. c # cs = sub @ b"
      then obtain b where "c # cs = [] @ sub @ b" by auto
      then show ?thesis by blast
    next
      assume "\<exists>a b. cs = a @ sub @ b"
      then obtain a b where "c # cs = (c # a) @ sub @ b" by auto
      then show ?thesis by blast
    qed
  qed
  with Cons show ?case by (simp add: starts_with_iff)
qed

lemma find_first:
  "P c \<Longrightarrow> \<forall>p \<in> set pre. \<not> P p \<Longrightarrow> find P (pre @ c # post) = Some c"
  by (induction pre) auto

lemma has_thread_tag_iff:
  "has_thread_tag tid c \<longleftrightarrow> (\<exists>a b. desc c = Some (a @ ''threadId: '' @ tid @ b))"
  by (auto simp: has_thread_tag_def includes_str_iff split: option.splits)

section \<open>Card matching by thread id\<close>

text \<open>
  C1. Let the email have a non-empty thread id. If some card's description contains the
  exact text \<open>threadId: <id>\<close>, the first such card in the order of the collection is the
  match, found by "Thread ID". The result is the same for every sender domain and every
  regular-expression engine, and no line announcing a domain attempt is logged: the domain is
  not tried.
\<close>

theorem thread_match_first:
  assumes "tid \<noteq> []"
    and "cards = pre @ c # post"
    and "\<exists>a b. desc c = Some (a @ ''threadId: '' @ tid @ b)"
    and "\<forall>p \<in> set pre. \<not> (\<exists>a b. desc p = Some (a @ ''threadId: '' @ tid @ b))"
  shows "match_card rx cards (Some tid) domain = (Returned (Some c, ''Thread ID''), [])"
proof -
  have "find (has_thread_tag tid) cards = Some c"
    unfolding assms(2) using assms(3,4) by (intro find_first) (simp_all add: has_thread_tag_iff)
  with assms(1) show ?thesis by (simp add: match_card_def)
qed

theorem thread_match_first_witness:
  "match_card no_regexp [card_plain, card_thread, card_both] (Some ''T42'') (Some ''acme.com'')
     = (Returned (Some card_thread, ''Thread ID''), [])"
proof -
  have hit: "\<exists>a b. desc card_thread = Some (a @ ''threadId: '' @ ''T42'' @ b)"
    unfolding has_thread_tag_iff [symmetric] by (simp add: has_thread_tag_def card_thread_def)
  have first: "\<forall>p \<in> set [card_plain]. \<not> (\<exists>a b. desc p = Some (a @ ''threadId: '' @ ''T42'' @ b))"
    unfolding has_thread_tag_iff [symmetric] by (simp add: has_thread_tag_def card_plain_def)
  show ?thesis
    using thread_match_first [of "''T42''" "[card_plain, card_thread, card_both]" "[card_plain]"
        card_thread "[card_both]" no_regexp "Some ''acme.com''"] hit first
    by simp
qed

section \<open>Card matching by domain\<close>

lemma ci_starts_with_iff:
  "ci_starts_with t p \<longleftrightarrow> (\<exists>u r. t = u @ r \<and> ci_equal u p)"
proof (induction t p rule: ci_starts_with.induct)
  case (1 t)
  then show ?case by (simp add: ci_equal_def)
next
  case (2 p ps)
  then show ?case by (simp add: ci_equal_def)
next
  case (3 c cs p ps)
  show ?case
  proof
    assume "ci_starts_with (c # cs) (p # ps)"
    with 3 obtain u r where "toUpperChar c = toUpperChar p" "cs = u @ r" "ci_equal u ps"
      by auto
    then have "c # cs = (c # u) @ r \<and> ci_equal (c # u) (p # ps)"
      by (simp add: ci_equal_def)
    then show "\<exists>u r. c # cs = u @ r \<and> ci_equal u (p # ps)" by blast
  next
    assume "\<exists>u r. c # cs = u @ r \<and> ci_equal u (p # ps)"
    then obtain u r where ur: "c # cs = u @ r" "ci_equal u (p # ps)" by blast
    then obtain x u' where u: "u = x # u'" by (cases u) (auto simp: ci_equal_def)
    with ur have "x = c" "cs = u' @ r" "toUpperChar x = toUpperChar p" "ci_equal u' ps"
      by (auto simp: ci_equal_def)
    with 3 show "ci_starts_with (c # cs) (p # ps)" by auto
  qed
qed

lemma ci_equal_length: "ci_equal u p \<Longrightarrow> length u = length p"
  unfolding ci_equal_def by (metis length_map)

lemma list_ex_upto: "list_ex P [0..<Suc n] \<longleftrightarrow> (\<exists>k. k \<le> n \<and> P k)"
  unfolding list_ex_iff set_upt by (auto simp: less_Suc_eq_le)

lemma take_within_takeWhile:
  assumes "k \<le> length (takeWhile P r)"
  shows "list_all P (take k r)"
proof -
  have "take k r = take k (take (length (takeWhile P r)) r)"
    using assms by (simp add: min_def)
  also have "\<dots> = take k (takeWhile P r)"
    using takeWhile_eq_take [of P r] by simp
  finally have "set (take k r) \<subseteq> set (takeWhile P r)"
    by (simp add: set_take_subset)
  then show ?thesis
    by (auto simp: list_all_iff dest: set_takeWhileD)
qed

lemma length_le_takeWhile:
  assumes "list_all P ws"
  shows "length ws \<le> length (takeWhile P (ws @ rest))"
proof -
  have "takeWhile P (ws @ rest) = ws @ takeWhile P rest"
    using assms by (simp add: list_all_iff)
  then show ?thesis by simp
qed

lemma domain_match_at_iff:
  "domain_match_at d t \<longleftrightarrow>
     (\<exists>u ws v b. t = u @ ws @ v @ b \<and> ci_equal u ''domain:'' \<and> list_all is_space ws \<and>
        (ci_equal v d \<or> ci_equal v (''['' @ d @ '']'')))"
  (is "?L \<longleftrightarrow> ?R")
proof
  assume ?L
  then have pre: "ci_starts_with t ''domain:''"
    and ex: "\<exists>k. k \<le> length (takeWhile is_space (drop 7 t)) \<and>
               (ci_starts_with (drop (7 + k) t) d \<or>
                ci_starts_with (drop (7 + k) t) (''['' @ d @ '']''))"
    unfolding domain_match_at_def list_ex_upto by blast+
  from ex obtain k where k: "k \<le> length (takeWhile is_space (drop 7 t))"
    and hit: "ci_starts_with (drop (7 + k) t) d \<or>
              ci_starts_with (drop (7 + k) t) (''['' @ d @ '']'')"
    by blast
  from pre obtain u r where ur: "t = u @ r" "ci_equal u ''domain:''"
    unfolding ci_starts_with_iff by blast
  from ur(2) have lu: "length u = 7" by (auto dest: ci_equal_length)
  with ur have d7: "drop 7 t = r" by simp
  have dk: "drop (7 + k) t = drop k r"
    using ur(1) lu by simp
  have ws: "list_all is_space (take k r)"
    using k d7 by (simp add: take_within_takeWhile)
  from hit obtain v b where vb: "drop k r = v @ b"
    "ci_equal v d \<or> ci_equal v (''['' @ d @ '']'')"
    unfolding dk ci_starts_with_iff by blast
  have "t = u @ take k r @ v @ b"
    using ur(1) vb(1) by (metis append_take_drop_id)
  with ur(2) ws vb(2) show ?R by blast
next
  assume ?R
  then obtain u ws v b where t: "t = u @ ws @ v @ b" and u: "ci_equal u ''domain:''"
    and ws: "list_all is_space ws"
    and v: "ci_equal v d \<or> ci_equal v (''['' @ d @ '']'')"
    by blast
  from u have lu: "length u = 7" by (auto dest: ci_equal_length)
  have pre: "ci_starts_with t ''domain:''"
    unfolding ci_starts_with_iff using t u by blast
  have d7: "drop 7 t = ws @ v @ b" using t lu by simp
  have k: "length ws \<le> length (takeWhile is_space (drop 7 t))"
    unfolding d7 using ws by (rule length_le_takeWhile)
  have dk: "drop (7 + length ws) t = v @ b" using t lu by simp
  have "ci_starts_with (drop (7 + length ws) t) d \<or>
        ci_starts_with (drop (7 + length ws) t) (''['' @ d @ '']'')"
    unfolding dk ci_starts_with_iff using v by blast
  with k have "\<exists>k. k \<le> length (takeWhile is_space (drop 7 t)) \<and>
               (ci_starts_with (drop (7 + k) t) d \<or>
                ci_starts_with (drop (7 + k) t) (''['' @ d @ '']''))"
    by blast
  with pre show ?L
    unfolding domain_match_at_def list_ex_upto by blast
qed

lemma domain_test_iff: "domain_test d text \<longleftrightarrow> matches_domain_tag d text"
proof
  assume "domain_test d text"
  then obtain i where "domain_match_at d (drop i text)"
    unfolding domain_test_def list_ex_upto by blast
  then obtain u ws v b where "drop i text = u @ ws @ v @ b" "ci_equal u ''domain:''"
    "list_all is_space ws" "ci_equal v d \<or> ci_equal v (''['' @ d @ '']'')"
    unfolding domain_match_at_iff by blast
  moreover from this(1) have "text = take i text @ u @ ws @ v @ b"
    by (metis append_take_drop_id)
  ultimately show "matches_domain_tag d text"
    unfolding matches_domain_tag_def by blast
next
  assume "matches_domain_tag d text"
  then obtain a u ws v b where t: "text = a @ u @ ws @ v @ b" and rest: "ci_equal u ''domain:''"
    "list_all is_space ws" "ci_equal v d \<or> ci_equal v (''['' @ d @ '']'')"
    unfolding matches_domain_tag_def by blast
  then have "domain_match_at d (u @ ws @ v @ b)"
    unfolding domain_match_at_iff by blast
  moreover have "drop (length a) text = u @ ws @ v @ b" using t by simp
  moreover have "length a \<le> length text" using t by simp
  ultimately show "domain_test d text"
    unfolding domain_test_def list_ex_upto by metis
qed

lemma has_domain_tag_iff:
  "has_domain_tag (domain_test d) c \<longleftrightarrow> (\<exists>t. desc c = Some t \<and> matches_domain_tag d t)"
proof -
  have "\<not> matches_domain_tag d []"
    by (auto simp: matches_domain_tag_def ci_equal_def)
  then show ?thesis
    by (auto simp: has_domain_tag_def domain_test_iff split: option.splits)
qed

text \<open>
  C2, as the code has it. Let the domain be non-empty and free of regular-expression syntax
  characters other than the dot, and let no card match by thread id. Then the card returned,
  by "Domain", is the first card in the order of the collection whose description contains,
  compared without regard to case, \<open>domain:\<close> followed by any run of white space and then the
  domain, bare or in square brackets, with the dots of the domain taken literally.
\<close>

theorem domain_match_first:
  assumes "d \<noteq> []" and "regex_literal d"
    and "\<forall>t. emailThreadId = Some t \<longrightarrow> t \<noteq> [] \<longrightarrow> (\<forall>c \<in> set cards. \<not> has_thread_tag t c)"
    and "cards = pre @ c # post"
    and "\<exists>t. desc c = Some t \<and> matches_domain_tag d t"
    and "\<forall>p \<in> set pre. \<not> (\<exists>t. desc p = Some t \<and> matches_domain_tag d t)"
  shows "match_card rx cards emailThreadId (Some d)
           = (Returned (Some c, ''Domain''), [LogTryingDomain d])"
proof -
  have nothread: "(case emailThreadId of None \<Rightarrow> None
                   | Some tid \<Rightarrow> if tid = [] then None else find (has_thread_tag tid) cards) = None"
    using assms(3) by (auto simp: find_None_iff split: option.splits)
  have "find (has_domain_tag (domain_test d)) cards = Some c"
    unfolding assms(4) using assms(5,6) by (intro find_first) (simp_all add: has_domain_tag_iff)
  with nothread assms(1,2) show ?thesis
    by (simp add: match_card_def domainRegex_def)
qed

theorem domain_match_first_witness:
  "match_card no_regexp [card_plain, card_bracket, card_domain] (Some ''T1'') (Some ''acme.com'')
     = (Returned (Some card_bracket, ''Domain''), [LogTryingDomain ''acme.com''])"
proof -
  have lit: "regex_literal ''acme.com''" by code_simp
  have nothread: "\<forall>t. Some ''T1'' = Some t \<longrightarrow> t \<noteq> [] \<longrightarrow>
      (\<forall>c \<in> set [card_plain, card_bracket, card_domain]. \<not> has_thread_tag t c)"
    by (simp add: has_thread_tag_def card_plain_def card_bracket_def card_domain_def)
  have "has_domain_tag (domain_test ''acme.com'') card_bracket" by code_simp
  then have hit: "\<exists>t. desc card_bracket = Some t \<and> matches_domain_tag ''acme.com'' t"
    by (simp add: has_domain_tag_iff)
  have "\<not> has_domain_tag (domain_test ''acme.com'') card_plain" by code_simp
  then have first: "\<forall>p \<in> set [card_plain]. \<not> (\<exists>t. desc p = Some t \<and> matches_domain_tag ''acme.com'' t)"
    by (simp add: has_domain_tag_iff)
  have ne: "''acme.com'' \<noteq> []" by simp
  have split: "[card_plain, card_bracket, card_domain] = [card_plain] @ card_bracket # [card_domain]"
    by simp
  show ?thesis
    by (rule domain_match_first [OF ne lit nothread split hit first])
qed

text \<open>
  The claim as stated names the first card whose description contains \<open>domain: D\<close> or
  \<open>domain: [D]\<close>. The pattern allows any run of white space after the colon, also none: a
  card tagged \<open>domain:acme.com\<close> standing before a card tagged \<open>domain: acme.com\<close> is returned,
  although its description contains neither of the two texts.
\<close>

theorem domain_match_counterexample:
  "match_card no_regexp [card_nospace, card_domain] None (Some ''acme.com'')
     = (Returned (Some card_nospace, ''Domain''), [LogTryingDomain ''acme.com''])
   \<and> desc card_nospace = Some ''domain:acme.com''
   \<and> desc card_domain = Some ''domain: acme.com''
   \<and> \<not> includes_str (toLowerCase ''domain:acme.com'') ''domain: acme.com''
   \<and> \<not> includes_str (toLowerCase ''domain:acme.com'') ''domain: [acme.com]''
   \<and> includes_str (toLowerCase ''domain: acme.com'') ''domain: acme.com''"
  by code_simp

section \<open>Reply classification\<close>

text \<open>
  C3. For every subject, every snippet, every state of the client and every behaviour of the
  AI service, the label returned by \<open>classifyEmailWithAI\<close> is one of the seven category names.
\<close>

theorem classify_in_label_set:
  "fst (classifyEmailWithAI groq subj snip reply) \<in>
     {''INITIAL_INTERVIEW'', ''CODING_CHALLENGE'', ''TECHNICAL_INTERVIEW'', ''HR_INTERVIEW'',
      ''REJECTION'', ''OFFER'', ''OTHER_REPLY''}"
proof -
  have cat: "set categories =
     {''INITIAL_INTERVIEW'', ''CODING_CHALLENGE'', ''TECHNICAL_INTERVIEW'', ''HR_INTERVIEW'',
      ''REJECTION'', ''OFFER'', ''OTHER_REPLY''}"
    by (simp add: categories_def)
  show ?thesis
  proof (cases groq)
    case False
    then show ?thesis by (simp add: classifyEmailWithAI_def)
  next
    case True
    show ?thesis
    proof (cases reply)
      case (ApiError msg)
      with True show ?thesis by (simp add: classifyEmailWithAI_def)
    next
      case (Completion content)
      show ?thesis
      proof (cases content)
        case None
        with True Completion show ?thesis by (simp add: classifyEmailWithAI_def)
      next
        case (Some s)
        show ?thesis
        proof (cases "toUpperCase (trim s) \<in> set categories")
          case True
          with \<open>groq\<close> Completion Some have
            "fst (classifyEmailWithAI groq subj snip reply) = toUpperCase (trim s)"
            by (simp add: classifyEmailWithAI_def Let_def)
          with True cat show ?thesis by simp
        next
          case False
          with \<open>groq\<close> Completion Some have
            "fst (classifyEmailWithAI groq subj snip reply) = ''OTHER_REPLY''"
            by (simp add: classifyEmailWithAI_def Let_def)
          then show ?thesis by simp
        qed
      qed
    qed
  qed
qed

text \<open>
  C4. If the client was not initialised, or the call throws, or the response has no content,
  or its content, trimmed and upper-cased, is not a category name, then
  \<open>classifyEmailWithAI\<close> returns OTHER_REPLY. The function has no error result: nothing is
  propagated to the caller.
\<close>

theorem classify_fails_safe:
  assumes "\<not> groq \<or> (\<exists>msg. reply = ApiError msg) \<or> reply = Completion None \<or>
           (\<exists>content. reply = Completion (Some content) \<and>
                      toUpperCase (trim content) \<notin> set categories)"
  shows "fst (classifyEmailWithAI groq subj snip reply) = ''OTHER_REPLY''"
  using assms by (auto simp: classifyEmailWithAI_def Let_def)

theorem classify_fails_safe_witness:
  "fst (classifyEmailWithAI True ''Re: your application'' ''Thanks for applying''
          (Completion (Some ''  maybe an interview?  ''))) = ''OTHER_REPLY''
   \<and> fst (classifyEmailWithAI True ''Re: your application'' ''Thanks for applying''
          (ApiError ''timeout'')) = ''OTHER_REPLY''
   \<and> fst (classifyEmailWithAI False ''Re: your application'' ''Thanks for applying''
          (Completion (Some ''OFFER''))) = ''OTHER_REPLY''"
proof -
  have ne: "toUpperCase (trim ''  maybe an interview?  '') \<notin> set categories"
    by (simp add: toUpperCase_def trim_def is_space_def categories_def)
  show ?thesis
    using classify_fails_safe [of True "Completion (Some ''  maybe an interview?  '')"
                                 "''Re: your application''" "''Thanks for applying''"]
          classify_fails_safe [of True "ApiError ''timeout''"
                                 "''Re: your application''" "''Thanks for applying''"]
          classify_fails_safe [of False "Completion (Some ''OFFER'')"
                                 "''Re: your application''" "''Thanks for applying''"]
          ne
    by simp
qed

section \<open>Moved cards leave the candidate set\<close>

lemma moved_mentions: "moved cid ev \<Longrightarrow> mentions cid ev"
  by (cases ev) auto

lemma settled_append:
  "settled (xs @ ys) \<longleftrightarrow>
     settled xs \<and> settled ys \<and> (\<forall>x \<in> set xs. \<forall>cid. moved cid x \<longrightarrow> (\<forall>y \<in> set ys. \<not> mentions cid y))"
  by (induction xs) (auto simp: list_all_iff)

lemma match_card_found:
  assumes "match_card rx cards t d = (Returned (Some c, meth), evs)"
  shows "c \<in> set cards \<and> (\<forall>ev \<in> set evs. \<forall>cid. \<not> mentions cid ev)"
  using assms
  by (auto simp: match_card_def find_Some_iff split: option.splits if_splits)

lemma match_card_quiet:
  "\<forall>ev \<in> set (snd (match_card rx cards t d)). \<forall>cid. \<not> mentions cid ev"
  by (auto simp: match_card_def split: option.splits if_splits)

lemma classify_quiet:
  "\<forall>ev \<in> set (snd (classifyEmailWithAI g s n r)). \<forall>cid. \<not> mentions cid ev"
  by (auto simp: classifyEmailWithAI_def Let_def split: ai_reply.splits option.splits)

lemma move_card_ok:
  assumes "truthy (fst (targetList e label))" and "put_ok m"
  shows "move_card e m s c label st =
         st\<lparr>trace := trace st @ [TrelloPut (card_id c) (or_else (fst (targetList e label)) []) True,
                                 GmailMarkRead (message_id m) (mark_ok m)],
            movedCardsLog := movedCardsLog st @ [(card_name c, snd (targetList e label), s)],
            trelloCards := filter (\<lambda>x. card_id x \<noteq> card_id c) (trelloCards st)\<rparr>"
  using assms by (cases "targetList e label") (simp add: move_card_def)

lemma move_card_failed:
  assumes "truthy (fst (targetList e label))" and "\<not> put_ok m"
  shows "move_card e m s c label st =
         st\<lparr>trace := trace st @ [TrelloPut (card_id c) (or_else (fst (targetList e label)) []) False,
                                 LogError ''Error moving card''],
            cardsFailed := Suc (cardsFailed st)\<rparr>"
  using assms by (cases "targetList e label") (simp add: move_card_def)

lemma move_card_no_action:
  assumes "\<not> truthy (fst (targetList e label))"
  shows "move_card e m s c label st = st\<lparr>trace := trace st @ [LogNoAction label]\<rparr>"
  using assms by (cases "targetList e label") (simp add: move_card_def)

lemma quiet_settled:
  "\<forall>ev \<in> set evs. \<forall>cid. \<not> mentions cid ev \<Longrightarrow> settled evs"
  by (induction evs) (auto dest: moved_mentions)

lemma step_ok_quiet:
  assumes "trace st' = trace st @ new" and "trelloCards st' = trelloCards st"
    and "\<forall>ev \<in> set new. \<forall>cid. \<not> mentions cid ev"
  shows "step_ok st st'"
proof -
  have "settled new" using assms(3) by (rule quiet_settled)
  with assms show ?thesis
    unfolding step_ok_def by (auto dest: moved_mentions)
qed

lemma step_ok_trans:
  assumes "step_ok st st1" and "step_ok st1 st2"
  shows "step_ok st st2"
proof -
  from assms(1) obtain n1 where 1: "trace st1 = trace st @ n1"
    "set (trelloCards st1) \<subseteq> set (trelloCards st)"
    "\<forall>ev \<in> set n1. \<forall>cid. mentions cid ev \<longrightarrow> cid \<in> card_id ` set (trelloCards st)"
    "settled n1"
    "\<forall>ev \<in> set n1. \<forall>cid. moved cid ev \<longrightarrow> cid \<notin> card_id ` set (trelloCards st1)"
    unfolding step_ok_def by blast
  from assms(2) obtain n2 where 2: "trace st2 = trace st1 @ n2"
    "set (trelloCards st2) \<subseteq> set (trelloCards st1)"
    "\<forall>ev \<in> set n2. \<forall>cid. mentions cid ev \<longrightarrow> cid \<in> card_id ` set (trelloCards st1)"
    "settled n2"
    "\<forall>ev \<in> set n2. \<forall>cid. moved cid ev \<longrightarrow> cid \<notin> card_id ` set (trelloCards st2)"
    unfolding step_ok_def by blast
  have sub1: "card_id ` set (trelloCards st1) \<subseteq> card_id ` set (trelloCards st)"
    using 1(2) by blast
  have sub2: "card_id ` set (trelloCards st2) \<subseteq> card_id ` set (trelloCards st1)"
    using 2(2) by blast
  have a: "trace st2 = trace st @ (n1 @ n2)" using 1(1) 2(1) by simp
  have b: "set (trelloCards st2) \<subseteq> set (trelloCards st)" using 1(2) 2(2) by blast
  have c: "\<forall>ev \<in> set (n1 @ n2). \<forall>cid. mentions cid ev \<longrightarrow> cid \<in> card_id ` set (trelloCards st)"
    using 1(3) 2(3) sub1 by auto
  have d: "settled (n1 @ n2)"
    unfolding settled_append using 1(4,5) 2(3,4) by blast
  have e: "\<forall>ev \<in> set (n1 @ n2). \<forall>cid. moved cid ev \<longrightarrow> cid \<notin> card_id ` set (trelloCards st2)"
    unfolding set_append using 1(5) 2(5) sub2 by blast
  show ?thesis
    unfolding step_ok_def using a b c d e by blast
qed

lemma move_card_step:
  assumes "c \<in> set (trelloCards st)"
  shows "step_ok st (move_card e m s c label st)"
proof (cases "truthy (fst (targetList e label))")
  case False
  then show ?thesis
    by (intro step_ok_quiet [where new = "[LogNoAction label]"]) (simp_all add: move_card_no_action)
next
  case True
  show ?thesis
  proof (cases "put_ok m")
    case True
    with \<open>truthy _\<close> assms show ?thesis
      unfolding step_ok_def by (auto simp: move_card_ok)
  next
    case False
    with \<open>truthy _\<close> assms show ?thesis
      unfolding step_ok_def by (auto simp: move_card_failed)
  qed
qed

lemma process_message_step:
  assumes "process_message e rx st m = (st', r)"
  shows "step_ok st st'"
proof (cases "get_result m")
  case (Inl err)
  with assms show ?thesis
    by (intro step_ok_quiet [where new = "[LogError (''Error fetching details for email: '' @ err)]"])
       (auto simp: process_message_def)
next
  case (Inr d)
  define subject where "subject = or_else (header_value (headers d) ''subject'') ''No Subject''"
  define toHeader where "toHeader = or_else (header_value (headers d) ''to'') []"
  define fromHeader where "fromHeader = or_else (header_value (headers d) ''from'') []"
  show ?thesis
  proof (cases "MY_EMAIL e")
    case None
    with Inr assms have "st' = st" by (simp add: process_message_def Let_def)
    then show ?thesis by (intro step_ok_quiet [where new = "[]"]) simp_all
  next
    case (Some me)
    show ?thesis
    proof (cases "includes_str (toLowerCase toHeader) (toLowerCase me)")
      case False
      with Inr Some assms have "st' = st\<lparr>trace := trace st @ [LogSkipping subject]\<rparr>"
        by (simp add: process_message_def Let_def toHeader_def subject_def)
      then show ?thesis by (intro step_ok_quiet [where new = "[LogSkipping subject]"]) simp_all
    next
      case True
      obtain res evs where mc: "match_card rx (trelloCards st) (threadId d)
                            (domain_of (fromEmail_of fromHeader)) = (res, evs)"
        by (cases "match_card rx (trelloCards st) (threadId d) (domain_of (fromEmail_of fromHeader))")
      have quiet: "\<forall>ev \<in> set evs. \<forall>cid. \<not> mentions cid ev"
        using match_card_quiet [of rx "trelloCards st" "threadId d" "domain_of (fromEmail_of fromHeader)"] mc
        by simp
      show ?thesis
      proof (cases res)
        case (Threw err)
        with Inr Some True mc assms have "st' = st\<lparr>trace := trace st @ LogAnalyzing subject # evs\<rparr>"
          by (simp add: process_message_def Let_def toHeader_def subject_def fromHeader_def)
        then show ?thesis using quiet
          by (intro step_ok_quiet [where new = "LogAnalyzing subject # evs"]) simp_all
      next
        case (Returned p)
        obtain co meth where p: "p = (co, meth)" by (cases p)
        show ?thesis
        proof (cases co)
          case None
          with Inr Some True mc assms Returned p
          have "st' = st\<lparr>trace := trace st @ LogAnalyzing subject # evs @ [LogNoMatch]\<rparr>"
            by (simp add: process_message_def Let_def toHeader_def subject_def fromHeader_def)
          then show ?thesis using quiet
            by (intro step_ok_quiet [where new = "LogAnalyzing subject # evs @ [LogNoMatch]"]) simp_all
        next
          case (Some c)
          obtain label ai_evs where cl: "classifyEmailWithAI (truthy (GROQ_API_KEY e)) subject
                                 (or_else (snippet d) []) (ai m) = (label, ai_evs)"
            by (cases "classifyEmailWithAI (truthy (GROQ_API_KEY e)) subject (or_else (snippet d) []) (ai m)")
          have aiq: "\<forall>ev \<in> set ai_evs. \<forall>cid. \<not> mentions cid ev"
            using classify_quiet [of "truthy (GROQ_API_KEY e)" subject "or_else (snippet d) []" "ai m"] cl
            by simp
          have cin: "c \<in> set (trelloCards st)"
            using match_card_found mc Returned p Some by blast
          define st1 where "st1 = st\<lparr>trace := trace st @ LogAnalyzing subject # evs @
                                             [LogFound meth (card_id c)] @ ai_evs\<rparr>"
          have st': "st' = move_card e m subject c label st1"
            using Inr \<open>MY_EMAIL e = _\<close> True mc assms Returned p Some cl
            by (simp add: process_message_def Let_def toHeader_def subject_def fromHeader_def st1_def)
          have s1: "step_ok st st1"
            unfolding step_ok_def st1_def using quiet aiq cin quiet_settled [OF quiet] quiet_settled [OF aiq]
            by (auto simp: settled_append dest: moved_mentions)
          have "step_ok st1 (move_card e m subject c label st1)"
            using cin by (intro move_card_step) (simp add: st1_def)
          with s1 st' show ?thesis using step_ok_trans by blast
        qed
      qed
    qed
  qed
qed

lemma process_messages_step:
  assumes "process_messages e rx st ms = (st', r)"
  shows "step_ok st st'"
  using assms
proof (induction ms arbitrary: st)
  case Nil
  then show ?case by (intro step_ok_quiet [where new = "[]"]) simp_all
next
  case (Cons m ms)
  obtain st1 r1 where pm: "process_message e rx st m = (st1, r1)"
    by (cases "process_message e rx st m")
  then have s1: "step_ok st st1" by (rule process_message_step)
  show ?case
  proof (cases r1)
    case None
    with pm Cons.prems have "process_messages e rx st1 ms = (st', r)" by simp
    then have "step_ok st1 st'" by (rule Cons.IH)
    with s1 show ?thesis by (rule step_ok_trans)
  next
    case (Some err)
    with pm Cons.prems have "st' = st1" by simp
    with s1 show ?thesis by simp
  qed
qed

text \<open>
  C5. Take the loop over the unread messages from the state \<open>main\<close> starts it in, and any
  successful card update in its trace. The card is not in the candidate set afterwards, no
  later event of the run reports it as found or asks to update it, and no earlier event moved
  it: a card is moved at most once per run, and once moved it is not matched again.
\<close>

theorem moved_card_excluded:
  assumes "trace (fst (process_messages e rx
             \<lparr>trelloCards = cards, movedCardsLog = [], cardsFailed = 0, trace = []\<rparr> ms))
           = xs @ TrelloPut cid l True # ys"
  shows "cid \<notin> card_id ` set (trelloCards (fst (process_messages e rx
             \<lparr>trelloCards = cards, movedCardsLog = [], cardsFailed = 0, trace = []\<rparr> ms)))
       \<and> (\<forall>meth. LogFound meth cid \<notin> set ys)
       \<and> (\<forall>l' ok. TrelloPut cid l' ok \<notin> set ys)
       \<and> (\<forall>l'. TrelloPut cid l' True \<notin> set xs)"
proof -
  define st0 :: state where "st0 = \<lparr>trelloCards = cards, movedCardsLog = [], cardsFailed = 0, trace = []\<rparr>"
  define st where "st = fst (process_messages e rx st0 ms)"
  have "process_messages e rx st0 ms = (st, snd (process_messages e rx st0 ms))"
    by (simp add: st_def)
  then have "step_ok st0 st" by (rule process_messages_step)
  then obtain new where new: "trace st = trace st0 @ new" "settled new"
    "\<forall>ev \<in> set new. \<forall>cid. moved cid ev \<longrightarrow> cid \<notin> card_id ` set (trelloCards st)"
    unfolding step_ok_def by blast
  have tr: "new = xs @ TrelloPut cid l True # ys"
    using new(1) assms by (simp add: st_def st0_def)
  have a: "cid \<notin> card_id ` set (trelloCards st)"
    using new(3) tr by (metis in_set_conv_decomp moved.simps(1))
  have s: "settled xs" "settled (TrelloPut cid l True # ys)"
    "\<forall>x \<in> set xs. \<forall>c. moved c x \<longrightarrow> (\<forall>y \<in> set (TrelloPut cid l True # ys). \<not> mentions c y)"
    using new(2) unfolding tr settled_append by blast+
  from s(2) have quiet: "\<forall>y \<in> set ys. \<not> mentions cid y"
    by (simp add: list_all_iff)
  have b: "\<forall>meth. LogFound meth cid \<notin> set ys"
    using quiet by (metis mentions.simps(1))
  have c: "\<forall>l' ok. TrelloPut cid l' ok \<notin> set ys"
    using quiet by (metis mentions.simps(2))
  have d: "\<forall>l'. TrelloPut cid l' True \<notin> set xs"
  proof (intro allI notI)
    fix l' assume "TrelloPut cid l' True \<in> set xs"
    with s(3) have "\<not> mentions cid (TrelloPut cid l True)"
      by (metis list.set_intros(1) moved.simps(1))
    then show False by simp
  qed
  from a b c d show ?thesis by (simp add: st_def st0_def)
qed

theorem moved_card_excluded_witness:
  "''c5'' \<notin> card_id ` set (trelloCards (fst (process_messages ex_env no_regexp
             \<lparr>trelloCards = [card_plain, card_domain], movedCardsLog = [], cardsFailed = 0, trace = []\<rparr>
             [msg_rejection, msg_again])))
   \<and> (\<forall>meth. LogFound meth ''c5'' \<notin> set [GmailMarkRead ''m1'' True, LogAnalyzing ''Your application'',
                                            LogTryingDomain ''acme.com'', LogNoMatch])
   \<and> (\<forall>l' ok. TrelloPut ''c5'' l' ok \<notin> set [GmailMarkRead ''m1'' True, LogAnalyzing ''Your application'',
                                            LogTryingDomain ''acme.com'', LogNoMatch])
   \<and> (\<forall>l'. TrelloPut ''c5'' l' True \<notin> set [LogAnalyzing ''Your application'', LogTryingDomain ''acme.com'',
          LogFound ''Domain'' ''c5'',
          GroqRequest (classify_prompt ''Your application'' ''Thank you for applying'')])"
proof -
  have run: "trace (fst (process_messages ex_env no_regexp
             \<lparr>trelloCards = [card_plain, card_domain], movedCardsLog = [], cardsFailed = 0, trace = []\<rparr>
             [msg_rejection, msg_again]))
        = [LogAnalyzing ''Your application'', LogTryingDomain ''acme.com'', LogFound ''Domain'' ''c5'',
           GroqRequest (classify_prompt ''Your application'' ''Thank you for applying'')]
          @ TrelloPut ''c5'' ''L_DROPPED'' True #
          [GmailMarkRead ''m1'' True, LogAnalyzing ''Your application'',
           LogTryingDomain ''acme.com'', LogNoMatch]"
    by code_simp
  show ?thesis by (rule moved_card_excluded [OF run])
qed

section \<open>Move attempts\<close>

lemma match_card_no_put: "filter is_put (snd (match_card rx cards t d)) = []"
  by (auto simp: match_card_def is_put_def split: option.splits if_splits)

lemma classify_no_put: "filter is_put (snd (classifyEmailWithAI g s n r)) = []"
  by (auto simp: classifyEmailWithAI_def Let_def is_put_def split: ai_reply.splits option.splits)

lemma move_card_puts:
  "\<exists>new. trace (move_card e m s c label st) = trace st @ new \<and> length (filter is_put new) \<le> 1
     \<and> (\<not> put_ok m \<longrightarrow> trelloCards (move_card e m s c label st) = trelloCards st)"
proof (cases "truthy (fst (targetList e label))")
  case False
  then show ?thesis by (simp add: move_card_no_action is_put_def)
next
  case True
  then show ?thesis
    by (cases "put_ok m") (simp_all add: move_card_ok move_card_failed is_put_def)
qed

text \<open>
  C6, as the code has it. While one message is processed at most one card update is
  requested: a failed update is not retried for that message. When the update fails the
  candidate set is left as it was, so the card can be matched by a later message of the same
  run.
\<close>

theorem one_move_attempt_per_message:
  "\<exists>new. trace (fst (process_message e rx st m)) = trace st @ new
         \<and> length (filter is_put new) \<le> 1
         \<and> (\<not> put_ok m \<longrightarrow> trelloCards (fst (process_message e rx st m)) = trelloCards st)"
proof (cases "get_result m")
  case (Inl err)
  then show ?thesis by (simp add: process_message_def is_put_def)
next
  case (Inr d)
  define subject where "subject = or_else (header_value (headers d) ''subject'') ''No Subject''"
  define toHeader where "toHeader = or_else (header_value (headers d) ''to'') []"
  define fromHeader where "fromHeader = or_else (header_value (headers d) ''from'') []"
  show ?thesis
  proof (cases "MY_EMAIL e")
    case None
    with Inr show ?thesis by (simp add: process_message_def Let_def)
  next
    case (Some me)
    show ?thesis
    proof (cases "includes_str (toLowerCase toHeader) (toLowerCase me)")
      case False
      with Inr Some show ?thesis
        by (simp add: process_message_def Let_def toHeader_def is_put_def)
    next
      case True
      obtain res evs where mc: "match_card rx (trelloCards st) (threadId d)
                            (domain_of (fromEmail_of fromHeader)) = (res, evs)"
        by (cases "match_card rx (trelloCards st) (threadId d) (domain_of (fromEmail_of fromHeader))")
      have quiet: "filter is_put evs = []"
        using match_card_no_put [of rx "trelloCards st" "threadId d" "domain_of (fromEmail_of fromHeader)"] mc
        by simp
      show ?thesis
      proof (cases res)
        case (Threw err)
        with Inr Some True mc quiet show ?thesis
          by (simp add: process_message_def Let_def toHeader_def fromHeader_def is_put_def)
      next
        case (Returned p)
        obtain co meth where p: "p = (co, meth)" by (cases p)
        show ?thesis
        proof (cases co)
          case None
          with Inr Some True mc Returned p quiet show ?thesis
            by (simp add: process_message_def Let_def toHeader_def fromHeader_def is_put_def)
        next
          case (Some c)
          obtain label ai_evs where cl: "classifyEmailWithAI (truthy (GROQ_API_KEY e)) subject
                                 (or_else (snippet d) []) (ai m) = (label, ai_evs)"
            by (cases "classifyEmailWithAI (truthy (GROQ_API_KEY e)) subject (or_else (snippet d) []) (ai m)")
          have aiq: "filter is_put ai_evs = []"
            using classify_no_put [of "truthy (GROQ_API_KEY e)" subject "or_else (snippet d) []" "ai m"] cl
            by simp
          define st1 where "st1 = st\<lparr>trace := trace st @ LogAnalyzing subject # evs @
                                             [LogFound meth (card_id c)] @ ai_evs\<rparr>"
          have st': "fst (process_message e rx st m) = move_card e m subject c label st1"
            using Inr \<open>MY_EMAIL e = _\<close> True mc Returned p Some cl
            by (simp add: process_message_def Let_def toHeader_def subject_def fromHeader_def st1_def)
          obtain new where new: "trace (move_card e m subject c label st1) = trace st1 @ new"
            "length (filter is_put new) \<le> 1"
            "\<not> put_ok m \<longrightarrow> trelloCards (move_card e m subject c label st1) = trelloCards st1"
            using move_card_puts [of e m subject c label st1] by blast
          have "trace (fst (process_message e rx st m)) =
                  trace st @ (LogAnalyzing subject # evs @ [LogFound meth (card_id c)] @ ai_evs @ new)"
            using st' new(1) by (simp add: st1_def)
          moreover have "length (filter is_put
                  (LogAnalyzing subject # evs @ [LogFound meth (card_id c)] @ ai_evs @ new)) \<le> 1"
            using quiet aiq new(2) by (simp add: is_put_def)
          moreover have "\<not> put_ok m \<longrightarrow> trelloCards (fst (process_message e rx st m)) = trelloCards st"
            using st' new(3) by (simp add: st1_def)
          ultimately show ?thesis by blast
        qed
      qed
    qed
  qed
qed

theorem one_move_attempt_per_message_witness:
  "\<exists>new. trace (fst (process_message ex_env no_regexp
                       \<lparr>trelloCards = [card_domain], movedCardsLog = [], cardsFailed = 0, trace = []\<rparr>
                       msg_put_fails)) = [] @ new
         \<and> length (filter is_put new) \<le> 1
         \<and> trelloCards (fst (process_message ex_env no_regexp
                       \<lparr>trelloCards = [card_domain], movedCardsLog = [], cardsFailed = 0, trace = []\<rparr>
                       msg_put_fails)) = [card_domain]"
  using one_move_attempt_per_message [of ex_env no_regexp
          "\<lparr>trelloCards = [card_domain], movedCardsLog = [], cardsFailed = 0, trace = []\<rparr>" msg_put_fails]
  by (simp add: msg_put_fails_def)

text \<open>
  The claim as stated bounds the attempts per card. Two messages from the same domain whose
  updates both fail each request an update of the same card: the run issues two failed
  updates of card \<open>c5\<close>.
\<close>

theorem move_attempts_counterexample:
  "count_list (fst (main ex_env no_regexp (ex_world [card_domain] [msg_put_fails, msg_put_fails_again])))
     (TrelloPut ''c5'' ''L_EST'' False) = 2"
  by code_simp

section \<open>Labels without a destination\<close>

lemma targetList_none:
  "label = ''OFFER'' \<or> label \<notin> set categories \<Longrightarrow> fst (targetList e label) = None"
  by (auto simp: targetList_def categories_def)

text \<open>
  C7. If the label is OFFER, or is not one of the category names, or the list id configured
  for it is absent or empty, then handling the matched card only logs that no action is
  defined: no card update is requested, the message is not marked read, and the candidate
  set, the log of moved cards and the failure counter are unchanged.
\<close>

theorem no_destination_no_move:
  assumes "label = ''OFFER'' \<or> label \<notin> set categories \<or> \<not> truthy (fst (targetList e label))"
  shows "move_card e m subject c label st = st\<lparr>trace := trace st @ [LogNoAction label]\<rparr>"
proof -
  have "\<not> truthy (fst (targetList e label))"
    using assms targetList_none [of label e] by auto
  then show ?thesis by (rule move_card_no_action)
qed

theorem no_destination_no_move_witness:
  "move_card ex_env msg_rejection ''Your application'' card_domain ''OFFER''
       \<lparr>trelloCards = [card_domain], movedCardsLog = [], cardsFailed = 0, trace = []\<rparr>
     = \<lparr>trelloCards = [card_domain], movedCardsLog = [], cardsFailed = 0, trace = [LogNoAction ''OFFER'']\<rparr>
   \<and> move_card ex_env msg_rejection ''Your application'' card_domain ''PHONE_SCREEN''
       \<lparr>trelloCards = [card_domain], movedCardsLog = [], cardsFailed = 0, trace = []\<rparr>
     = \<lparr>trelloCards = [card_domain], movedCardsLog = [], cardsFailed = 0, trace = [LogNoAction ''PHONE_SCREEN'']\<rparr>
   \<and> move_card ex_env msg_rejection ''Your application'' card_domain ''CODING_CHALLENGE''
       \<lparr>trelloCards = [card_domain], movedCardsLog = [], cardsFailed = 0, trace = []\<rparr>
     = \<lparr>trelloCards = [card_domain], movedCardsLog = [], cardsFailed = 0, trace = [LogNoAction ''CODING_CHALLENGE'']\<rparr>"
proof -
  have a: "''PHONE_SCREEN'' \<notin> set categories" by (simp add: categories_def)
  have b: "\<not> truthy (fst (targetList ex_env ''CODING_CHALLENGE''))"
    by (simp add: targetList_def ex_env_def)
  show ?thesis
    using no_destination_no_move [of "''OFFER''" ex_env msg_rejection "''Your application''" card_domain
            "\<lparr>trelloCards = [card_domain], movedCardsLog = [], cardsFailed = 0, trace = []\<rparr>"]
          no_destination_no_move [of "''PHONE_SCREEN''" ex_env msg_rejection "''Your application''" card_domain
            "\<lparr>trelloCards = [card_domain], movedCardsLog = [], cardsFailed = 0, trace = []\<rparr>"]
          no_destination_no_move [of "''CODING_CHALLENGE''" ex_env msg_rejection "''Your application''" card_domain
            "\<lparr>trelloCards = [card_domain], movedCardsLog = [], cardsFailed = 0, trace = []\<rparr>"]
          a b
    by simp
qed

section \<open>Job status check\<close>

text \<open>
  C8. If the client is not initialised, or the call throws, or the response has no content,
  or its content, trimmed and upper-cased, is neither ACTIVE nor DELETED, then
  \<open>checkJobStatusWithAI\<close> returns true (ACTIVE) for every URL, and checking the card requests no
  card update and records no moved card.
\<close>

theorem status_check_fails_safe:
  assumes "\<not> groq \<or> (\<exists>msg. status_reply cc = ApiError msg) \<or> status_reply cc = Completion None \<or>
           (\<exists>content. status_reply cc = Completion (Some content) \<and>
              toUpperCase (trim content) \<noteq> ''ACTIVE'' \<and> toUpperCase (trim content) \<noteq> ''DELETED'')"
  shows "fst (checkJobStatusWithAI groq u (status_reply cc)) = True
       \<and> (\<exists>new. checker_trace (check_card groq e st cc) = checker_trace st @ new \<and> filter is_put new = [])
       \<and> cardsMoved (check_card groq e st cc) = cardsMoved st
       \<and> deletedJobNames (check_card groq e st cc) = deletedJobNames st"
proof -
  have active: "\<And>u. fst (checkJobStatusWithAI groq u (status_reply cc)) = True"
    using assms by (auto simp: checkJobStatusWithAI_def Let_def)
  have quiet: "\<And>u. filter is_put (snd (checkJobStatusWithAI groq u (status_reply cc))) = []"
    by (auto simp: checkJobStatusWithAI_def Let_def is_put_def split: ai_reply.splits option.splits)
  show ?thesis
  proof (cases "attachments cc")
    case (Inl err)
    then show ?thesis using active by (simp add: check_card_def is_put_def)
  next
    case (Inr atts)
    show ?thesis
    proof (cases "find (\<lambda>att. isUpload att = False \<and> truthy (url att)) atts")
      case None
      with Inr show ?thesis using active by (simp add: check_card_def is_put_def)
    next
      case (Some a)
      obtain act evs where r: "checkJobStatusWithAI groq (or_else (url a) []) (status_reply cc) = (act, evs)"
        by (cases "checkJobStatusWithAI groq (or_else (url a) []) (status_reply cc)")
      with active [of "or_else (url a) []"] quiet [of "or_else (url a) []"]
      have "act" "filter is_put evs = []" by simp_all
      with Inr Some r show ?thesis using active
        by (simp add: check_card_def is_put_def)
    qed
  qed
qed

theorem status_check_fails_safe_witness:
  "fst (checkJobStatusWithAI True ''https://initech.example/jobs/7'' (status_reply ex_check)) = True
   \<and> (\<exists>new. checker_trace (check_card True ex_env ex_checker_state ex_check)
               = checker_trace ex_checker_state @ new \<and> filter is_put new = [])
   \<and> cardsMoved (check_card True ex_env ex_checker_state ex_check) = cardsMoved ex_checker_state
   \<and> deletedJobNames (check_card True ex_env ex_checker_state ex_check) = deletedJobNames ex_checker_state"
proof -
  have "toUpperCase (trim ''The page says: position filled'') \<noteq> ''ACTIVE''
      \<and> toUpperCase (trim ''The page says: position filled'') \<noteq> ''DELETED''"
    by code_simp
  then have h: "\<not> True \<or> (\<exists>msg. status_reply ex_check = ApiError msg) \<or>
      status_reply ex_check = Completion None \<or>
      (\<exists>content. status_reply ex_check = Completion (Some content) \<and>
         toUpperCase (trim content) \<noteq> ''ACTIVE'' \<and> toUpperCase (trim content) \<noteq> ''DELETED'')"
    by (simp add: ex_check_def)
  show ?thesis by (rule status_check_fails_safe [OF h])
qed

section \<open>Missing configuration\<close>

text \<open>
  C9, as the code has it. In the Reply Classifier, when TRELLO_API_KEY, TRELLO_TOKEN or
  TRELLO_SENT_CV_LIST_ID is absent or empty the run ends before any card is fetched, matched
  or moved, with an error line and a call of \<open>sendNotification\<close>: for the missing Trello
  variables, or, when connecting to Gmail failed first, for that failure. In the Job Status
  Checker the same holds when TRELLO_API_KEY, TRELLO_TOKEN, GROQ_API_KEY,
  TRELLO_JOB_DELETED_FROM_WEBSITE_LIST_ID or TRELLO_SENT_CV_LIST_ID is absent or empty.
\<close>

theorem missing_config_aborts:
  "(\<not> truthy (TRELLO_API_KEY e) \<or> \<not> truthy (TRELLO_TOKEN e) \<or> \<not> truthy (TRELLO_SENT_CV_LIST_ID e) \<longrightarrow>
      main e rx w =
        (case gmail_auth w of
           Some err \<Rightarrow>
             (LogError (''Failed to connect to Gmail: '' @ err) #
                sendNotification e ''robot'' (ntfy_ok w) ''Trello Bot Error''
                  (''Failed to connect to Gmail: '' @ err), 0)
         | None \<Rightarrow>
             (LogError ''Error: Ensure TRELLO_API_KEY, TRELLO_TOKEN, and TRELLO_SENT_CV_LIST_ID are set in .env'' #
                sendNotification e ''robot'' (ntfy_ok w) ''Trello Bot Error''
                  ''Trello environment variables are missing.'', 0)))
   \<and> (\<not> truthy (TRELLO_API_KEY e) \<or> \<not> truthy (TRELLO_TOKEN e) \<or> \<not> truthy (GROQ_API_KEY e) \<or>
      \<not> truthy (TRELLO_JOB_DELETED_FROM_WEBSITE_LIST_ID e) \<or> \<not> truthy (TRELLO_SENT_CV_LIST_ID e) \<longrightarrow>
      main_checker e cw =
        (LogError ''Error: One or more required environment variables are missing.'' #
           sendNotification e ''broom,robot'' (checker_ntfy_ok cw) ''Job Checker Error''
             ''Required .env variables are missing.'', 0))"
proof (intro conjI impI)
  assume missing: "\<not> truthy (TRELLO_API_KEY e) \<or> \<not> truthy (TRELLO_TOKEN e) \<or>
                   \<not> truthy (TRELLO_SENT_CV_LIST_ID e)"
  show "main e rx w =
        (case gmail_auth w of
           Some err \<Rightarrow>
             (LogError (''Failed to connect to Gmail: '' @ err) #
                sendNotification e ''robot'' (ntfy_ok w) ''Trello Bot Error''
                  (''Failed to connect to Gmail: '' @ err), 0)
         | None \<Rightarrow>
             (LogError ''Error: Ensure TRELLO_API_KEY, TRELLO_TOKEN, and TRELLO_SENT_CV_LIST_ID are set in .env'' #
                sendNotification e ''robot'' (ntfy_ok w) ''Trello Bot Error''
                  ''Trello environment variables are missing.'', 0))"
  proof (cases "gmail_auth w")
    case None
    with missing show ?thesis by (simp add: main_def)
  next
    case (Some err)
    then show ?thesis by (simp add: main_def)
  qed
next
  assume missing: "\<not> truthy (TRELLO_API_KEY e) \<or> \<not> truthy (TRELLO_TOKEN e) \<or>
                   \<not> truthy (GROQ_API_KEY e) \<or>
                   \<not> truthy (TRELLO_JOB_DELETED_FROM_WEBSITE_LIST_ID e) \<or>
                   \<not> truthy (TRELLO_SENT_CV_LIST_ID e)"
  then show "main_checker e cw =
        (LogError ''Error: One or more required environment variables are missing.'' #
           sendNotification e ''broom,robot'' (checker_ntfy_ok cw) ''Job Checker Error''
             ''Required .env variables are missing.'', 0)"
    by (simp add: main_checker_def)
qed

theorem missing_config_aborts_witness:
  "main (ex_env\<lparr>TRELLO_TOKEN := None\<rparr>) no_regexp (ex_world [card_domain] [msg_rejection])
     = ([LogError ''Error: Ensure TRELLO_API_KEY, TRELLO_TOKEN, and TRELLO_SENT_CV_LIST_ID are set in .env'',
         NtfyPost ''jobs'' ''Trello Bot Error'' ''Trello environment variables are missing.'' ''robot'' True], 0)
   \<and> main_checker (ex_env\<lparr>TRELLO_JOB_DELETED_FROM_WEBSITE_LIST_ID := Some []\<rparr>)
        \<lparr>fetch_all_cards = Inr [ex_check], checker_ntfy_ok = True\<rparr>
     = ([LogError ''Error: One or more required environment variables are missing.'',
         NtfyPost ''jobs'' ''Job Checker Error'' ''Required .env variables are missing.'' ''broom,robot'' True], 0)"
  using missing_config_aborts [of "ex_env\<lparr>TRELLO_TOKEN := None\<rparr>" no_regexp
          "ex_world [card_domain] [msg_rejection]" "\<lparr>fetch_all_cards = Inr [ex_check], checker_ntfy_ok = True\<rparr>"]
        missing_config_aborts [of "ex_env\<lparr>TRELLO_JOB_DELETED_FROM_WEBSITE_LIST_ID := Some []\<rparr>" no_regexp
          "ex_world [card_domain] [msg_rejection]" "\<lparr>fetch_all_cards = Inr [ex_check], checker_ntfy_ok = True\<rparr>"]
  by (simp add: ex_env_def ex_world_def sendNotification_def)

text \<open>
  The claim as stated covers every API key. The Reply Classifier runs without GROQ_API_KEY:
  the label degrades to OTHER_REPLY and the matched card is moved to the list configured
  for it.
\<close>

theorem missing_config_counterexample:
  "GROQ_API_KEY (ex_env\<lparr>GROQ_API_KEY := None\<rparr>) = None
   \<and> TrelloPut ''c5'' ''L_EST'' True
       \<in> set (fst (main (ex_env\<lparr>GROQ_API_KEY := None\<rparr>) no_regexp (ex_world [card_domain] [msg_rejection])))"
  by code_simp

section \<open>Messages addressed to someone else\<close>

text \<open>
  C10. If the metadata of a message was fetched and its To header, lower-cased, does not
  contain the configured address, lower-cased, then processing the message only logs that it
  is skipped: no matching is logged, no AI call, no card update and no mark-read request is
  made, and the candidate set is unchanged. This holds for every engine.
\<close>

theorem not_addressed_skipped:
  assumes "get_result m = Inr d" and "MY_EMAIL e = Some yourEmailAddress"
    and "\<not> includes_str (toLowerCase (or_else (header_value (headers d) ''to'') []))
                        (toLowerCase yourEmailAddress)"
  shows "process_message e rx st m =
           (st\<lparr>trace := trace st @
                  [LogSkipping (or_else (header_value (headers d) ''subject'') ''No Subject'')]\<rparr>, None)"
  using assms by (simp add: process_message_def Let_def)

theorem not_addressed_skipped_witness:
  "process_message ex_env no_regexp
      \<lparr>trelloCards = [card_both], movedCardsLog = [], cardsFailed = 0, trace = []\<rparr> msg_elsewhere
    = (\<lparr>trelloCards = [card_both], movedCardsLog = [], cardsFailed = 0,
         trace = [LogSkipping ''Newsletter'']\<rparr>, None)"
proof -
  define d :: msg_data where "d = \<lparr>threadId = Some ''T42'',
       headers = [(''To'', ''team@x.com''), (''From'', ''HR <hr@acme.com>''), (''Subject'', ''Newsletter'')],
       snippet = None\<rparr>"
  have g: "get_result msg_elsewhere = Inr d" by (simp add: msg_elsewhere_def d_def)
  have me: "MY_EMAIL ex_env = Some ''me@x.com''" by (simp add: ex_env_def)
  have "\<not> includes_str (toLowerCase (or_else (header_value
            [(''To'', ''team@x.com''), (''From'', ''HR <hr@acme.com>''), (''Subject'', ''Newsletter'')] ''to'') []))
          (toLowerCase ''me@x.com'')"
    by code_simp
  then have no: "\<not> includes_str (toLowerCase (or_else (header_value (headers d) ''to'') []))
          (toLowerCase ''me@x.com'')"
    by (simp add: d_def)
  have subj: "or_else (header_value (headers d) ''subject'') ''No Subject'' = ''Newsletter''"
    unfolding d_def by code_simp
  show ?thesis
    using not_addressed_skipped [OF g me no, of no_regexp
            "\<lparr>trelloCards = [card_both], movedCardsLog = [], cardsFailed = 0, trace = []\<rparr>"] subj
    by simp
qed

end
